theory Spec2Isabelle
  imports Complex_Main
begin

section \<open>The operating system as UM/LockFile.py sees it\<close>

text \<open>
  The lock guard touches the outside world through a handful of library calls only:
  \<^verbatim>\<open>time.time\<close>, \<^verbatim>\<open>time.sleep\<close>, \<^verbatim>\<open>os.path.exists\<close>, \<^verbatim>\<open>os.path.getmtime\<close>,
  \<^verbatim>\<open>open\<close> and \<^verbatim>\<open>write\<close>, \<^verbatim>\<open>os.remove\<close>, \<^verbatim>\<open>os.getpid\<close> and \<^verbatim>\<open>Logger.log\<close>.
  The world is a record: the files (name to content and modification time), the clock, the
  process identifier, the log, and what the other processes do. Time stamps are Python floats;
  they are modelled as reals, since the code only adds and compares them.

  A failing system call raises \<^verbatim>\<open>OSError\<close>; Python picks the subclass from the error number,
  \<^verbatim>\<open>FileNotFoundError\<close> for \<^verbatim>\<open>ENOENT\<close> and \<^verbatim>\<open>PermissionError\<close> for \<^verbatim>\<open>EACCES\<close>.
  \<open>Exception\<close> stands for any exception that is not an \<^verbatim>\<open>OSError\<close>, such as one raised by
  the body of a \<^verbatim>\<open>with\<close> block.
\<close>

datatype errno = ENOENT | EACCES | EIO

datatype exception = OSError errno | Exception string

abbreviation FileNotFoundError :: exception where
  "FileNotFoundError \<equiv> OSError ENOENT"


record regular_file =
  content :: string
  mtime :: real

datatype op = Stat | Open | Write | Remove

datatype syscall =
    SysTime
  | SysSleep real
  | SysStat string
  | SysOpen string
  | SysWrite string string
  | SysRemove string

text \<open>
  What another process (or the administrator, or the network) can do between two system calls
  of this process: let time pass, delete a file, write a file, set a file's modification time,
  or make one kind of operation on a path fail with an error number (or work again).
\<close>

datatype event =
    Tick real
  | Unlink string
  | Store string string
  | Utime string real
  | Fault op string "errno option"

record world =
  files :: "string \<Rightarrow> regular_file option"
  faults :: "op \<Rightarrow> string \<Rightarrow> errno option"
  clock :: real
  pid :: nat
  log :: "(string \<times> string) list"
  history :: "syscall list"
  pending :: "nat \<Rightarrow> event list"

fun occur :: "world \<Rightarrow> event \<Rightarrow> world" where
  "occur w (Tick d) = w\<lparr>clock := clock w + d\<rparr>"
| "occur w (Unlink f) = w\<lparr>files := (files w)(f := None)\<rparr>"
| "occur w (Store f s) = w\<lparr>files := (files w)(f \<mapsto> \<lparr>content = s, mtime = clock w\<rparr>)\<rparr>"
| "occur w (Utime f t) =
     (case files w f of
        None \<Rightarrow> w
      | Some st \<Rightarrow> w\<lparr>files := (files w)(f \<mapsto> st\<lparr>mtime := t\<rparr>)\<rparr>)"
| "occur w (Fault k f e) = w\<lparr>faults := (faults w)(k := (faults w k)(f := e))\<rparr>"

text \<open>
  Every system call of this process finds the world as the events scheduled before it
  (\<open>pending w 0\<close>) have left it, is recorded in the history, and moves the schedule on by one.
\<close>

definition at_next_call :: "world \<Rightarrow> world" where
  "at_next_call w = foldl occur w (pending w 0)"

definition system_call :: "syscall \<Rightarrow> world \<Rightarrow> world" where
  "system_call c w =
     (at_next_call w)\<lparr>history := history w @ [c], pending := (\<lambda>n. pending w (Suc n))\<rparr>"

text \<open>No other process acts from now on.\<close>

definition quiet :: "world \<Rightarrow> bool" where
  "quiet w \<longleftrightarrow> (\<forall>n. pending w n = [])"

subsection \<open>The library calls\<close>

definition time_time :: "world \<Rightarrow> real \<times> world" where
  "time_time w = (let w' = system_call SysTime w in (clock w', w'))"

definition time_sleep :: "real \<Rightarrow> world \<Rightarrow> world" where
  "time_sleep d w = (let w' = system_call (SysSleep d) w in w'\<lparr>clock := clock w' + d\<rparr>)"

definition os_stat :: "string \<Rightarrow> world \<Rightarrow> (exception + regular_file) \<times> world" where
  "os_stat f w =
     (let w' = system_call (SysStat f) w in
      case files w' f of
        None \<Rightarrow> (Inl (OSError ENOENT), w')
      | Some st \<Rightarrow>
          (case faults w' Stat f of
             Some e \<Rightarrow> (Inl (OSError e), w')
           | None \<Rightarrow> (Inr st, w')))"

text \<open>\<^verbatim>\<open>os.path.exists\<close> is \<^verbatim>\<open>os.stat\<close> with every \<^verbatim>\<open>OSError\<close> turned into \<^verbatim>\<open>False\<close>.\<close>

definition os_path_exists :: "string \<Rightarrow> world \<Rightarrow> bool \<times> world" where
  "os_path_exists f w =
     (case os_stat f w of
        (Inl e, w') \<Rightarrow> (False, w')
      | (Inr st, w') \<Rightarrow> (True, w'))"

definition os_path_getmtime :: "string \<Rightarrow> world \<Rightarrow> (exception + real) \<times> world" where
  "os_path_getmtime f w =
     (case os_stat f w of
        (Inl e, w') \<Rightarrow> (Inl e, w')
      | (Inr st, w') \<Rightarrow> (Inr (mtime st), w'))"

text \<open>\<^verbatim>\<open>open(f, "w")\<close> creates the file or truncates it.\<close>

definition open_w :: "string \<Rightarrow> world \<Rightarrow> (exception + unit) \<times> world" where
  "open_w f w =
     (let w' = system_call (SysOpen f) w in
      case faults w' Open f of
        Some e \<Rightarrow> (Inl (OSError e), w')
      | None \<Rightarrow> (Inr (), w'\<lparr>files := (files w')(f \<mapsto> \<lparr>content = [], mtime = clock w'\<rparr>)\<rparr>))"

text \<open>
  Writing to the open file and closing it. If the name was unlinked after the \<^verbatim>\<open>open\<close>, the
  text goes to a file that no name refers to any more.
\<close>

definition file_write :: "string \<Rightarrow> string \<Rightarrow> world \<Rightarrow> (exception + unit) \<times> world" where
  "file_write f s w =
     (let w' = system_call (SysWrite f s) w in
      case faults w' Write f of
        Some e \<Rightarrow> (Inl (OSError e), w')
      | None \<Rightarrow>
          (case files w' f of
             None \<Rightarrow> (Inr (), w')
           | Some st \<Rightarrow>
               (Inr (), w'\<lparr>files := (files w')(f \<mapsto> \<lparr>content = s, mtime = clock w'\<rparr>)\<rparr>)))"

definition os_remove :: "string \<Rightarrow> world \<Rightarrow> (exception + unit) \<times> world" where
  "os_remove f w =
     (let w' = system_call (SysRemove f) w in
      case files w' f of
        None \<Rightarrow> (Inl (OSError ENOENT), w')
      | Some st \<Rightarrow>
          (case faults w' Remove f of
             Some e \<Rightarrow> (Inl (OSError e), w')
           | None \<Rightarrow> (Inr (), w'\<lparr>files := (files w')(f := None)\<rparr>)))"

definition os_getpid :: "world \<Rightarrow> nat" where
  "os_getpid w = pid w"

definition Logger_log :: "string \<Rightarrow> string \<Rightarrow> world \<Rightarrow> world" where
  "Logger_log severity msg w = w\<lparr>log := log w @ [(severity, msg)]\<rparr>"

text \<open>\<^verbatim>\<open>"%s" % n\<close> for a non-negative integer: its decimal digits.\<close>

definition digit_char :: "nat \<Rightarrow> char" where
  "digit_char d = ''0123456789'' ! d"

fun str_nat :: "nat \<Rightarrow> string" where
  "str_nat n = (if n < 10 then [digit_char n] else str_nat (n div 10) @ [digit_char (n mod 10)])"

declare str_nat.simps [simp del]

section \<open>class LockFile\<close>

record LockFile =
  filename :: string
  wait_msg :: string
  timeout :: real

text \<open>
  \<^verbatim>\<open>def __init__(self, filename, timeout = 10, wait_msg = "Waiting for lock file to disappear...")\<close>:
  an argument left out is \<open>None\<close> here. The source declares \<^verbatim>\<open>timeout: int\<close> and only adds
  it to a float, so it is a real here.
\<close>

definition LockFile_init :: "string \<Rightarrow> real option \<Rightarrow> string option \<Rightarrow> LockFile" where
  "LockFile_init fname tmo msg =
     \<lparr>filename = fname,
      wait_msg = (case msg of None \<Rightarrow> ''Waiting for lock file to disappear...'' | Some m \<Rightarrow> m),
      timeout = (case tmo of None \<Rightarrow> 10 | Some t \<Rightarrow> t)\<rparr>"

text \<open>
  The condition of the \<^verbatim>\<open>while\<close> in \<^verbatim>\<open>_waitLockFileDisappear\<close>, evaluated left to right as
  Python's \<^verbatim>\<open>and\<close> does: the existence check, then one read of the modification time for
  each comparison.
  \<^verbatim>\<open>os.path.exists(f) and now < os.path.getmtime(f) + self._timeout and now > os.path.getmtime(f)\<close>
\<close>

definition wait_condition :: "LockFile \<Rightarrow> real \<Rightarrow> world \<Rightarrow> (exception + bool) \<times> world" where
  "wait_condition self now w =
     (case os_path_exists (filename self) w of
        (False, w1) \<Rightarrow> (Inr False, w1)
      | (True, w1) \<Rightarrow>
          (case os_path_getmtime (filename self) w1 of
             (Inl e, w2) \<Rightarrow> (Inl e, w2)
           | (Inr m1, w2) \<Rightarrow>
               if now < m1 + timeout self then
                 (case os_path_getmtime (filename self) w2 of
                    (Inl e, w3) \<Rightarrow> (Inl e, w3)
                  | (Inr m2, w3) \<Rightarrow> (Inr (now > m2), w3))
               else (Inr False, w2)))"

text \<open>
  The body of the loop: log the message, sleep a tenth of a second, read the clock.
\<close>

definition wait_body :: "LockFile \<Rightarrow> world \<Rightarrow> real \<times> world" where
  "wait_body self w = time_time (time_sleep (1 / 10) (Logger_log ''d'' (wait_msg self) w))"

text \<open>
  The loop can spin for ever (another process may refresh the marker again and again), so it
  is a partial function: \<open>None\<close> is a loop that never ends. An exception leaves the loop as
  \<open>Inl\<close>. The methods return the object with the world, since a Python method may assign
  to the attributes of \<^verbatim>\<open>self\<close>.
\<close>

partial_function (option) wait_loop ::
  "LockFile \<Rightarrow> real \<Rightarrow> world \<Rightarrow> ((exception + unit) \<times> LockFile \<times> world) option" where
  "wait_loop self now w =
     (case wait_condition self now w of
        (Inl e, w1) \<Rightarrow> Some (Inl e, self, w1)
      | (Inr b, w1) \<Rightarrow>
          if b then (case wait_body self w1 of (now', w2) \<Rightarrow> wait_loop self now' w2)
          else Some (Inr (), self, w1))"

definition waitLockFileDisappear ::
  "LockFile \<Rightarrow> world \<Rightarrow> ((exception + unit) \<times> LockFile \<times> world) option" where
  "waitLockFileDisappear self w =
     (case time_time w of
        (now, w0) \<Rightarrow>
          (case wait_loop self now w0 of
             None \<Rightarrow> None
           | Some (Inl e, self', w') \<Rightarrow>
               if e = FileNotFoundError then Some (Inr (), self', w')
               else Some (Inl e, self', w')
           | Some (Inr u, self', w') \<Rightarrow> Some (Inr (), self', w')))"

definition create_failed_msg :: "LockFile \<Rightarrow> string" where
  "create_failed_msg self = ''Could not create lock file ['' @ filename self @ '']''"

definition createLockFile :: "LockFile \<Rightarrow> world \<Rightarrow> (exception + unit) \<times> LockFile \<times> world" where
  "createLockFile self w =
     (case open_w (filename self) w of
        (Inl e, w1) \<Rightarrow> (Inr (), self, Logger_log ''e'' (create_failed_msg self) w1)
      | (Inr u, w1) \<Rightarrow>
          (case file_write (filename self) (str_nat (os_getpid w1)) w1 of
             (Inl e, w2) \<Rightarrow> (Inr (), self, Logger_log ''e'' (create_failed_msg self) w2)
           | (Inr u', w2) \<Rightarrow> (Inr (), self, w2)))"

definition delete_failed_msg :: "LockFile \<Rightarrow> string" where
  "delete_failed_msg self = ''Could not delete lock file ['' @ filename self @ '']''"

definition deleteLockFile :: "LockFile \<Rightarrow> world \<Rightarrow> (exception + unit) \<times> LockFile \<times> world" where
  "deleteLockFile self w =
     (case os_remove (filename self) w of
        (Inl e, w1) \<Rightarrow>
          if e = FileNotFoundError then (Inr (), self, w1)
          else (Inr (), self, Logger_log ''e'' (delete_failed_msg self) w1)
      | (Inr u, w1) \<Rightarrow> (Inr (), self, w1))"

text \<open>\<^verbatim>\<open>__enter__\<close>: wait, then create.\<close>

definition LockFile_enter ::
  "LockFile \<Rightarrow> world \<Rightarrow> ((exception + unit) \<times> LockFile \<times> world) option" where
  "LockFile_enter self w =
     (case waitLockFileDisappear self w of
        None \<Rightarrow> None
      | Some (Inl e, self1, w1) \<Rightarrow> Some (Inl e, self1, w1)
      | Some (Inr u, self1, w1) \<Rightarrow> Some (createLockFile self1 w1))"

text \<open>
  \<^verbatim>\<open>__exit__\<close> ignores its three arguments (here: the exception of the block, if any) and
  returns \<^verbatim>\<open>None\<close>, which the \<^verbatim>\<open>with\<close> statement reads as false: do not suppress.
\<close>

definition LockFile_exit ::
  "LockFile \<Rightarrow> exception option \<Rightarrow> world \<Rightarrow> (exception + bool) \<times> LockFile \<times> world" where
  "LockFile_exit self exc w =
     (case deleteLockFile self w of
        (Inl e, self1, w1) \<Rightarrow> (Inl e, self1, w1)
      | (Inr u, self1, w1) \<Rightarrow> (Inr False, self1, w1))"

text \<open>
  The documented use, \<^verbatim>\<open>with LockFile(f): body\<close>, by the rules of Python's \<^verbatim>\<open>with\<close>
  statement: \<^verbatim>\<open>__enter__\<close>, the body, then \<^verbatim>\<open>__exit__\<close> with the body's exception if it
  raised one; that exception goes on unless \<^verbatim>\<open>__exit__\<close> returns a true value.
\<close>

definition with_LockFile ::
  "LockFile \<Rightarrow> (world \<Rightarrow> (exception + unit) \<times> world) \<Rightarrow> world \<Rightarrow>
     ((exception + unit) \<times> LockFile \<times> world) option" where
  "with_LockFile self body w =
     (case LockFile_enter self w of
        None \<Rightarrow> None
      | Some (Inl e, self1, w1) \<Rightarrow> Some (Inl e, self1, w1)
      | Some (Inr u, self1, w1) \<Rightarrow>
          (case body w1 of
             (Inr v, w2) \<Rightarrow>
               (case LockFile_exit self1 None w2 of
                  (Inl e', self2, w3) \<Rightarrow> Some (Inl e', self2, w3)
                | (Inr suppress, self2, w3) \<Rightarrow> Some (Inr (), self2, w3))
           | (Inl e, w2) \<Rightarrow>
               (case LockFile_exit self1 (Some e) w2 of
                  (Inl e', self2, w3) \<Rightarrow> Some (Inl e', self2, w3)
                | (Inr suppress, self2, w3) \<Rightarrow>
                    if suppress then Some (Inr (), self2, w3) else Some (Inl e, self2, w3))))"

section \<open>Notions used in the statements\<close>

text \<open>
  What every result of the wait loop satisfies: the object and the process identifier are
  the ones the loop started with, and an exception that leaves the loop is the
  \<^verbatim>\<open>OSError\<close> of a failed read of the modification time.
\<close>

definition loop_result_ok ::
  "LockFile \<Rightarrow> world \<Rightarrow> (exception + unit) \<times> LockFile \<times> world \<Rightarrow> bool" where
  "loop_result_ok self w res \<longleftrightarrow>
     fst (snd res) = self \<and> pid (snd (snd res)) = pid w \<and>
     (\<forall>e. fst res = Inl e \<longrightarrow>
        (\<exists>n. e = OSError n
           \<and> (n \<noteq> ENOENT \<longrightarrow> faults (snd (snd res)) Stat (filename self) = Some n)
           \<and> last (history (snd (snd res))) = SysStat (filename self)))"

text \<open>
  The waiting condition in the words of the specification: the marker file exists (and can be
  examined) and its age, the current time minus its modification time, is strictly between 0
  and the staleness timeout.
\<close>

definition keeps_waiting :: "LockFile \<Rightarrow> real \<Rightarrow> world \<Rightarrow> bool" where
  "keeps_waiting self now w \<longleftrightarrow>
     (case files w (filename self) of
        None \<Rightarrow> False
      | Some st \<Rightarrow>
          faults w Stat (filename self) = None \<and> 0 < now - mtime st \<and> now - mtime st < timeout self)"

text \<open>
  The world after one round of the loop when no other process acts: three \<^verbatim>\<open>stat\<close> calls
  for the condition, the message logged, a sleep of a tenth of a second, the clock read.
\<close>

definition polled :: "LockFile \<Rightarrow> world \<Rightarrow> world" where
  "polled self w =
     w\<lparr>clock := clock w + 1 / 10,
       log := log w @ [(''d'', wait_msg self)],
       history := history w @ [SysStat (filename self), SysStat (filename self),
         SysStat (filename self), SysSleep (1 / 10), SysTime]\<rparr>"

text \<open>
  The loop variable and the world after \<open>n\<close> rounds of the loop (\<open>None\<close> if the loop
  leaves earlier).
\<close>

fun after_polls :: "LockFile \<Rightarrow> nat \<Rightarrow> real \<times> world \<Rightarrow> (real \<times> world) option" where
  "after_polls self 0 s = Some s"
| "after_polls self (Suc n) (now, w) =
     (case wait_condition self now w of
        (Inl e, w1) \<Rightarrow> None
      | (Inr b, w1) \<Rightarrow> if b then after_polls self n (wait_body self w1) else None)"

text \<open>
  What other processes may do while this one waits, if they leave the marker \<open>f\<close> alone
  or delete it: they do not write it, do not set its modification time, do not make
  \<^verbatim>\<open>stat\<close> fail on it, and the clock does not go back.
\<close>

definition no_refresh :: "string \<Rightarrow> event \<Rightarrow> bool" where
  "no_refresh f ev \<longleftrightarrow>
     (case ev of
        Tick d \<Rightarrow> 0 \<le> d
      | Unlink g \<Rightarrow> True
      | Store g s \<Rightarrow> g \<noteq> f
      | Utime g t \<Rightarrow> g \<noteq> f
      | Fault k g e \<Rightarrow> \<not> (k = Stat \<and> g = f))"

definition marker_left_alone :: "string \<Rightarrow> world \<Rightarrow> bool" where
  "marker_left_alone f w \<longleftrightarrow> (\<forall>n. list_all (no_refresh f) (pending w n))"

text \<open>
  From world \<open>w\<close> to a later world \<open>v\<close> of such a run: the marker is as it was or gone.
\<close>

definition onward :: "string \<Rightarrow> world \<Rightarrow> world \<Rightarrow> bool" where
  "onward f w v \<longleftrightarrow>
     marker_left_alone f v \<and> faults v Stat f = faults w Stat f \<and> clock w \<le> clock v \<and>
     pid v = pid w \<and> (files v f = files w f \<or> files v f = None)"

section \<open>Example worlds\<close>

text \<open>The guard with its default configuration, and a world with no files and no other process.\<close>

definition lock0 :: LockFile where
  "lock0 = LockFile_init ''m.lock'' None None"

definition w_empty :: world where
  "w_empty = \<lparr>files = (\<lambda>f. None), faults = (\<lambda>k f. None), clock = 100, pid = 4242,
     log = [], history = [], pending = (\<lambda>n. [])\<rparr>"

text \<open>The same world after \<^verbatim>\<open>__enter__\<close>, and after \<^verbatim>\<open>__exit__\<close>.\<close>

definition w_held :: world where
  "w_held = w_empty\<lparr>files := [''m.lock'' \<mapsto> \<lparr>content = ''4242'', mtime = 100\<rparr>],
     history := [SysTime, SysStat ''m.lock'', SysOpen ''m.lock'', SysWrite ''m.lock'' ''4242'']\<rparr>"

definition w_released :: world where
  "w_released = w_empty\<lparr>history := [SysTime, SysStat ''m.lock'', SysOpen ''m.lock'',
     SysWrite ''m.lock'' ''4242'', SysRemove ''m.lock'']\<rparr>"

text \<open>A marker that this process may not delete.\<close>

definition w_undeletable :: world where
  "w_undeletable = w_held\<lparr>faults := (\<lambda>k f. if k = Remove then Some EACCES else None)\<rparr>"

definition skip_body :: "world \<Rightarrow> (exception + unit) \<times> world" where
  "skip_body w = (Inr (), w)"

text \<open>
  A marker written by another process one second ago, eleven seconds ago, and this very
  moment; the clock stands at 100.
\<close>

definition w_fresh :: world where
  "w_fresh = \<lparr>files = [''m.lock'' \<mapsto> \<lparr>content = ''17'', mtime = 99\<rparr>],
     faults = (\<lambda>k f. None), clock = 100, pid = 4242, log = [], history = [],
     pending = (\<lambda>n. [])\<rparr>"

definition w_stale :: world where
  "w_stale = w_fresh\<lparr>files := [''m.lock'' \<mapsto> \<lparr>content = ''17'', mtime = 89\<rparr>]\<rparr>"

definition w_now :: world where
  "w_now = w_fresh\<lparr>files := [''m.lock'' \<mapsto> \<lparr>content = ''17'', mtime = 100\<rparr>]\<rparr>"

text \<open>
  The marker is there when \<^verbatim>\<open>os.path.exists\<close> looks at the start of the second round of
  the loop, and another process deletes it before \<^verbatim>\<open>os.path.getmtime\<close> reads it: the
  eighth system call of \<^verbatim>\<open>__enter__\<close>. The worlds after the first, sixth, seventh and
  eighth call follow.
\<close>

definition w_race :: world where
  "w_race = w_fresh\<lparr>pending := (\<lambda>n. if n = 7 then [Unlink ''m.lock''] else [])\<rparr>"

definition w_race_started :: world where
  "w_race_started = w_race\<lparr>history := [SysTime],
     pending := (\<lambda>n. if n = 6 then [Unlink ''m.lock''] else [])\<rparr>"

definition w_race_polled :: world where
  "w_race_polled = w_race\<lparr>clock := 1001 / 10,
     log := [(''d'', ''Waiting for lock file to disappear...'')],
     history := [SysTime, SysStat ''m.lock'', SysStat ''m.lock'', SysStat ''m.lock'',
       SysSleep (1 / 10), SysTime],
     pending := (\<lambda>n. if n = 1 then [Unlink ''m.lock''] else [])\<rparr>"

definition w_race_checked :: world where
  "w_race_checked = w_race_polled\<lparr>
     history := history w_race_polled @ [SysStat ''m.lock''],
     pending := (\<lambda>n. if n = 0 then [Unlink ''m.lock''] else [])\<rparr>"

definition w_race_gone :: world where
  "w_race_gone = w_race_checked\<lparr>files := (\<lambda>f. None),
     history := history w_race_checked @ [SysStat ''m.lock''],
     pending := (\<lambda>n. [])\<rparr>"

text \<open>The directory becomes unreadable between the existence check and the first read of the
  modification time.\<close>

definition w_denied :: world where
  "w_denied = w_fresh\<lparr>pending := (\<lambda>n. if n = 2 then [Fault Stat ''m.lock'' (Some EACCES)] else [])\<rparr>"

text \<open>A guard with timeout 0, and a \<^verbatim>\<open>with\<close> body that raises.\<close>

definition lock_zero :: LockFile where
  "lock_zero = LockFile_init ''m.lock'' (Some 0) None"

definition failing_body :: "world \<Rightarrow> (exception + unit) \<times> world" where
  "failing_body w = (Inl (Exception ''boom''), w)"

text \<open>The world in which \<^verbatim>\<open>__enter__\<close> ends there.\<close>

definition w_denied_raised :: world where
  "w_denied_raised = w_fresh\<lparr>faults := (\<lambda>k f. None)(Stat := [''m.lock'' \<mapsto> EACCES]),
     history := [SysTime, SysStat ''m.lock'', SysStat ''m.lock'']\<rparr>"

section \<open>Lemmas\<close>

subsection \<open>What a system call leaves alone\<close>

lemma occur_frame:
  "log (occur w ev) = log w" "pid (occur w ev) = pid w"
  "history (occur w ev) = history w" "pending (occur w ev) = pending w"
  by (cases ev; simp split: option.splits)+

lemma foldl_occur_frame:
  "log (foldl occur w evs) = log w \<and> pid (foldl occur w evs) = pid w \<and>
   history (foldl occur w evs) = history w \<and> pending (foldl occur w evs) = pending w"
  by (induction evs arbitrary: w) (simp_all add: occur_frame)

lemma at_next_call_frame [simp]:
  "log (at_next_call w) = log w" "pid (at_next_call w) = pid w"
  "history (at_next_call w) = history w" "pending (at_next_call w) = pending w"
  by (simp_all add: at_next_call_def foldl_occur_frame)

lemma system_call_fields [simp]:
  "history (system_call c w) = history w @ [c]"
  "pending (system_call c w) = (\<lambda>n. pending w (Suc n))"
  "files (system_call c w) = files (at_next_call w)"
  "faults (system_call c w) = faults (at_next_call w)"
  "clock (system_call c w) = clock (at_next_call w)"
  "log (system_call c w) = log w"
  "pid (system_call c w) = pid w"
  by (simp_all add: system_call_def)

lemma at_next_call_quiet: "quiet w \<Longrightarrow> at_next_call w = w"
  by (simp add: at_next_call_def quiet_def)

lemma system_call_quiet: "quiet w \<Longrightarrow> system_call c w = w\<lparr>history := history w @ [c]\<rparr>"
proof -
  assume q: "quiet w"
  then have "(\<lambda>n. pending w (Suc n)) = pending w"
    by (auto simp: quiet_def)
  with q show ?thesis
    by (simp add: system_call_def at_next_call_quiet)
qed

lemma quiet_updates [simp]:
  "quiet (w\<lparr>history := h\<rparr>) = quiet w"
  "quiet (w\<lparr>log := l\<rparr>) = quiet w"
  "quiet (w\<lparr>clock := c\<rparr>) = quiet w"
  "quiet (w\<lparr>files := fs\<rparr>) = quiet w"
  by (simp_all add: quiet_def)

subsection \<open>The library calls, one by one\<close>

lemma os_stat_frame:
  assumes "os_stat f w = (r, w')"
  shows "w' = system_call (SysStat f) w"
  using assms by (auto simp: os_stat_def Let_def split: option.splits)

lemma os_remove_cases:
  "os_remove f w =
     (case files (at_next_call w) f of
        None \<Rightarrow> (Inl FileNotFoundError, system_call (SysRemove f) w)
      | Some st \<Rightarrow>
          (case faults (at_next_call w) Remove f of
             Some e \<Rightarrow> (Inl (OSError e), system_call (SysRemove f) w)
           | None \<Rightarrow> (Inr (), (system_call (SysRemove f) w)
                 \<lparr>files := (files (at_next_call w))(f := None)\<rparr>)))"
  by (simp add: os_remove_def Let_def split: option.splits)

lemma os_stat_cases:
  "os_stat f w =
     (case files (at_next_call w) f of
        None \<Rightarrow> (Inl FileNotFoundError, system_call (SysStat f) w)
      | Some st \<Rightarrow>
          (case faults (at_next_call w) Stat f of
             Some e \<Rightarrow> (Inl (OSError e), system_call (SysStat f) w)
           | None \<Rightarrow> (Inr st, system_call (SysStat f) w)))"
  by (simp add: os_stat_def Let_def split: option.splits)


lemma os_path_exists_world: "snd (os_path_exists f w) = system_call (SysStat f) w"
  by (simp add: os_path_exists_def os_stat_cases split: option.splits)

lemma os_path_getmtime_world: "snd (os_path_getmtime f w) = system_call (SysStat f) w"
  by (simp add: os_path_getmtime_def os_stat_cases split: option.splits)

lemma os_path_getmtime_raises:
  assumes "os_path_getmtime f w = (Inl e, w')"
  shows "\<exists>n. e = OSError n \<and> (n \<noteq> ENOENT \<longrightarrow> faults w' Stat f = Some n)
           \<and> history w' = history w @ [SysStat f] \<and> pid w' = pid w \<and> log w' = log w"
  using assms by (auto simp: os_path_getmtime_def os_stat_cases split: option.splits)

lemma wait_condition_frame:
  assumes "wait_condition self now w = (r, w')"
  shows "pid w' = pid w \<and> log w' = log w"
  using assms
  by (auto simp: wait_condition_def os_path_exists_def os_path_getmtime_def os_stat_cases
      split: option.splits if_splits)

lemma wait_condition_raises:
  assumes "wait_condition self now w = (Inl e, w')"
  shows "\<exists>n. e = OSError n \<and> (n \<noteq> ENOENT \<longrightarrow> faults w' Stat (filename self) = Some n)
           \<and> last (history w') = SysStat (filename self)"
  using assms
  by (auto simp: wait_condition_def os_path_exists_def os_path_getmtime_def os_stat_cases
      split: option.splits if_splits)

lemma wait_body_frame:
  assumes "wait_body self w = (now', w')"
  shows "pid w' = pid w \<and> log w' = log w @ [(''d'', wait_msg self)] \<and> now' = clock w'"
  using assms by (auto simp: wait_body_def time_time_def time_sleep_def Logger_log_def Let_def)

lemma wait_loop_result:
  assumes ret: "wait_loop self now w = Some res"
  shows "loop_result_ok self w res"
proof (rule wait_loop.raw_induct [where P = "\<lambda>self now w res. loop_result_ok self w res", OF _ ret])
  fix f self now w res
  assume IH: "\<And>self now w res. f self now w = Some res \<Longrightarrow> loop_result_ok self w res"
    and eq: "(case wait_condition self now w of
           (Inl e, w1) \<Rightarrow> Some (Inl e, self, w1)
         | (Inr b, w1) \<Rightarrow>
             if b then (case wait_body self w1 of (now', w2) \<Rightarrow> f self now' w2)
             else Some (Inr (), self, w1)) = Some res"
  obtain r w1 where c: "wait_condition self now w = (r, w1)"
    by (cases "wait_condition self now w")
  note fr = wait_condition_frame [OF c]
  show "loop_result_ok self w res"
  proof (cases r)
    case (Inl e)
    with c eq have res: "res = (Inl e, self, w1)" by simp
    from c Inl have "wait_condition self now w = (Inl e, w1)" by simp
    from wait_condition_raises [OF this] fr res show ?thesis
      by (simp add: loop_result_ok_def)
  next
    case (Inr b)
    show ?thesis
    proof (cases b)
      case False
      with c eq Inr have "res = (Inr (), self, w1)" by simp
      with fr show ?thesis by (simp add: loop_result_ok_def)
    next
      case True
      obtain now' w2 where b: "wait_body self w1 = (now', w2)"
        by (cases "wait_body self w1")
      with c eq Inr True have "f self now' w2 = Some res" by simp
      then have "loop_result_ok self w2 res" by (rule IH)
      with wait_body_frame [OF b] fr show ?thesis
        by (simp add: loop_result_ok_def)
    qed
  qed
qed

lemma createLockFile_returns:
  "\<exists>w'. createLockFile self w = (Inr (), self, w')"
  by (auto simp: createLockFile_def split: prod.splits sum.splits)

lemma deleteLockFile_returns:
  "\<exists>w'. deleteLockFile self w = (Inr (), self, w')"
  by (auto simp: deleteLockFile_def split: prod.splits sum.splits)

lemma LockFile_exit_returns:
  "\<exists>w'. LockFile_exit self exc w = (Inr False, self, w')"
  using deleteLockFile_returns [of self w] by (auto simp: LockFile_exit_def)

lemma waitLockFileDisappear_self:
  assumes "waitLockFileDisappear self w = Some (r, self', w')"
  shows "self' = self \<and> pid w' = pid w"
proof -
  obtain now w0 where t: "time_time w = (now, w0)" by (cases "time_time w")
  then have p: "pid w0 = pid w" by (auto simp: time_time_def Let_def)
  from assms t obtain res where l: "wait_loop self now w0 = Some res"
    and "snd res = (self', w')"
    by (auto simp: waitLockFileDisappear_def split: option.splits sum.splits if_splits)
  with wait_loop_result [OF l] p show ?thesis by (simp add: loop_result_ok_def)
qed

lemma LockFile_enter_self:
  assumes "LockFile_enter self w = Some (r, self', w')"
  shows "self' = self"
proof (cases "waitLockFileDisappear self w")
  case None
  with assms show ?thesis by (simp add: LockFile_enter_def)
next
  case (Some res)
  obtain r1 s1 w1 where res: "res = (r1, s1, w1)" by (cases res)
  with Some have "s1 = self" using waitLockFileDisappear_self by blast
  with assms Some res createLockFile_returns [of self w1] show ?thesis
    by (auto simp: LockFile_enter_def split: sum.splits)
qed

lemma LockFile_exit_ignores: "LockFile_exit self exc w = LockFile_exit self None w"
  by (simp add: LockFile_exit_def)

lemma with_LockFile_entered:
  assumes en: "LockFile_enter self w = Some (Inr (), self, w1)" and b: "body w1 = (rb, w2)"
  shows "with_LockFile self body w = Some (rb, self, snd (snd (deleteLockFile self w2)))"
proof -
  obtain w3 where d: "deleteLockFile self w2 = (Inr (), self, w3)"
    using deleteLockFile_returns by blast
  then have x: "LockFile_exit self exc w2 = (Inr False, self, w3)" for exc
    by (simp add: LockFile_exit_def)
  show ?thesis
  proof (cases rb)
    case (Inl e)
    with en b d x [of "Some e"] show ?thesis by (simp add: with_LockFile_def)
  next
    case (Inr u)
    with en b d x [of None] show ?thesis by (simp add: with_LockFile_def)
  qed
qed

lemma with_LockFile_self:
  assumes "with_LockFile self body w = Some (r, self', w')"
  shows "self' = self"
proof (cases "LockFile_enter self w")
  case None
  with assms show ?thesis by (simp add: with_LockFile_def)
next
  case (Some res)
  obtain r1 s1 w1 where res: "res = (r1, s1, w1)" by (cases res)
  with Some have s1: "s1 = self" using LockFile_enter_self by blast
  obtain rb w2 where b: "body w1 = (rb, w2)" by (cases "body w1")
  show ?thesis
  proof (cases r1)
    case (Inl e)
    with assms Some res s1 show ?thesis by (simp add: with_LockFile_def)
  next
    case (Inr u)
    with Some res s1 have "LockFile_enter self w = Some (Inr (), self, w1)" by simp
    from with_LockFile_entered [of self w w1 body rb w2, OF this b] assms show ?thesis by simp
  qed
qed

lemma quiet_polled [simp]: "quiet (polled self w) = quiet w"
  by (simp add: polled_def quiet_def)

lemma os_stat_quiet:
  assumes "quiet w"
  shows "os_stat f w =
     (case files w f of
        None \<Rightarrow> Inl FileNotFoundError
      | Some st \<Rightarrow> (case faults w Stat f of Some e \<Rightarrow> Inl (OSError e) | None \<Rightarrow> Inr st),
      w\<lparr>history := history w @ [SysStat f]\<rparr>)"
  using assms by (simp add: os_stat_cases system_call_quiet at_next_call_quiet split: option.splits)

lemma wait_condition_quiet:
  assumes "quiet w"
  shows "\<exists>h. wait_condition self now w = (Inr (keeps_waiting self now w), w\<lparr>history := history w @ h\<rparr>)
     \<and> set h \<subseteq> {SysStat (filename self)}
     \<and> (keeps_waiting self now w \<longrightarrow>
          h = [SysStat (filename self), SysStat (filename self), SysStat (filename self)])
     \<and> (files w (filename self) \<noteq> None \<and> faults w Stat (filename self) = None
          \<and> \<not> now < mtime (the (files w (filename self))) + timeout self \<longrightarrow>
          h = [SysStat (filename self), SysStat (filename self)])"
  using assms
  by (auto simp: wait_condition_def os_path_exists_def os_path_getmtime_def os_stat_quiet
      keeps_waiting_def split: option.splits)






lemma enter_after_wait:
  assumes "waitLockFileDisappear self w = Some (Inr (), self, w1)"
  shows "LockFile_enter self w = Some (createLockFile self w1)"
  using assms by (simp add: LockFile_enter_def)

lemma time_time_quiet:
  "quiet w \<Longrightarrow> time_time w = (clock w, w\<lparr>history := history w @ [SysTime]\<rparr>)"
  by (simp add: time_time_def system_call_quiet Let_def)

lemma waitLockFileDisappear_quiet_exit:
  assumes q: "quiet w" and k: "\<not> keeps_waiting self (clock w) w"
  shows "\<exists>h. waitLockFileDisappear self w =
           Some (Inr (), self, w\<lparr>history := history w @ SysTime # h\<rparr>)
         \<and> set h \<subseteq> {SysStat (filename self)}
         \<and> (files w (filename self) \<noteq> None \<and> faults w Stat (filename self) = None
          \<and> \<not> clock w < mtime (the (files w (filename self))) + timeout self \<longrightarrow>
          h = [SysStat (filename self), SysStat (filename self)])"
proof -
  let ?w0 = "w\<lparr>history := history w @ [SysTime]\<rparr>"
  have q0: "quiet ?w0" using q by simp
  have k0: "\<not> keeps_waiting self (clock w) ?w0"
    using k by (simp add: keeps_waiting_def split: option.splits)
  from wait_condition_quiet [OF q0, of self "clock w"] k0
  obtain h where c: "wait_condition self (clock w) ?w0 = (Inr False, ?w0\<lparr>history := history ?w0 @ h\<rparr>)"
    and hs: "set h \<subseteq> {SysStat (filename self)}"
    and h: "files w (filename self) \<noteq> None \<and> faults w Stat (filename self) = None
          \<and> \<not> clock w < mtime (the (files w (filename self))) + timeout self \<longrightarrow>
          h = [SysStat (filename self), SysStat (filename self)]"
    by auto
  have "wait_loop self (clock w) ?w0 = Some (Inr (), self, ?w0\<lparr>history := history ?w0 @ h\<rparr>)"
    by (subst wait_loop.simps) (simp add: c)
  then have "waitLockFileDisappear self w =
      Some (Inr (), self, w\<lparr>history := history w @ SysTime # h\<rparr>)"
    by (simp add: waitLockFileDisappear_def time_time_quiet [OF q])
  with h hs show ?thesis by blast
qed

lemma open_w_quiet:
  assumes "quiet w"
  shows "open_w f w =
     (case faults w Open f of
        Some e \<Rightarrow> (Inl (OSError e), w\<lparr>history := history w @ [SysOpen f]\<rparr>)
      | None \<Rightarrow> (Inr (), w\<lparr>history := history w @ [SysOpen f],
          files := (files w)(f \<mapsto> \<lparr>content = [], mtime = clock w\<rparr>)\<rparr>))"
  using assms by (simp add: open_w_def system_call_quiet Let_def split: option.splits)

lemma file_write_quiet:
  assumes "quiet w"
  shows "file_write f s w =
     (case faults w Write f of
        Some e \<Rightarrow> (Inl (OSError e), w\<lparr>history := history w @ [SysWrite f s]\<rparr>)
      | None \<Rightarrow>
          (case files w f of
             None \<Rightarrow> (Inr (), w\<lparr>history := history w @ [SysWrite f s]\<rparr>)
           | Some st \<Rightarrow> (Inr (), w\<lparr>history := history w @ [SysWrite f s],
               files := (files w)(f \<mapsto> \<lparr>content = s, mtime = clock w\<rparr>)\<rparr>)))"
  using assms by (simp add: file_write_def system_call_quiet Let_def split: option.splits)

lemma createLockFile_quiet:
  assumes q: "quiet w" and o: "faults w Open (filename self) = None"
    and wr: "faults w Write (filename self) = None"
  shows "createLockFile self w =
     (Inr (), self,
      w\<lparr>files := (files w)(filename self \<mapsto> \<lparr>content = str_nat (pid w), mtime = clock w\<rparr>),
        history := history w @ [SysOpen (filename self),
          SysWrite (filename self) (str_nat (pid w))]\<rparr>)"
proof -
  let ?f = "filename self"
  let ?w1 = "w\<lparr>history := history w @ [SysOpen ?f],
          files := (files w)(?f \<mapsto> \<lparr>content = [], mtime = clock w\<rparr>)\<rparr>"
  have op: "open_w ?f w = (Inr (), ?w1)"
    using o by (simp add: open_w_quiet [OF q])
  have q1: "quiet ?w1" using q by simp
  have "file_write ?f (str_nat (pid w)) ?w1 =
      (Inr (), ?w1\<lparr>history := history ?w1 @ [SysWrite ?f (str_nat (pid w))],
               files := (files ?w1)(?f \<mapsto> \<lparr>content = str_nat (pid w), mtime = clock ?w1\<rparr>)\<rparr>)"
    using wr by (simp add: file_write_quiet [OF q1])
  with op show ?thesis
    by (simp add: createLockFile_def os_getpid_def)
qed


lemma os_remove_quiet:
  assumes "quiet w"
  shows "os_remove f w =
     (case files w f of
        None \<Rightarrow> (Inl FileNotFoundError, w\<lparr>history := history w @ [SysRemove f]\<rparr>)
      | Some st \<Rightarrow>
          (case faults w Remove f of
             Some e \<Rightarrow> (Inl (OSError e), w\<lparr>history := history w @ [SysRemove f]\<rparr>)
           | None \<Rightarrow> (Inr (), w\<lparr>history := history w @ [SysRemove f],
               files := (files w)(f := None)\<rparr>)))"
  using assms
  by (simp add: os_remove_cases system_call_quiet at_next_call_quiet split: option.splits)



lemma os_path_exists_quiet:
  "quiet w \<Longrightarrow> fst (os_path_exists f w) \<longleftrightarrow> files w f \<noteq> None \<and> faults w Stat f = None"
  by (auto simp: os_path_exists_def os_stat_quiet split: option.splits)

lemma wait_loop_after_polls:
  "after_polls self n (now, w) = Some (now', w') \<Longrightarrow>
     wait_loop self now w = wait_loop self now' w'"
proof (induction n arbitrary: now w)
  case 0
  then show ?case by simp
next
  case (Suc n)
  obtain r w1 where c: "wait_condition self now w = (r, w1)"
    by (cases "wait_condition self now w")
  with Suc.prems have r: "r = Inr True"
    by (auto split: sum.splits if_splits)
  obtain now1 w2 where b: "wait_body self w1 = (now1, w2)"
    by (cases "wait_body self w1")
  with Suc.prems c r have "after_polls self n (now1, w2) = Some (now', w')"
    by simp
  then have "wait_loop self now1 w2 = wait_loop self now' w'"
    by (rule Suc.IH)
  moreover have "wait_loop self now w = wait_loop self now1 w2"
    by (subst wait_loop.simps) (simp add: c r b)
  ultimately show ?case by simp
qed

lemma deleteLockFile_outcome:
  "\<exists>w'. deleteLockFile self w = (Inr (), self, w')
     \<and> history w' = history w @ [SysRemove (filename self)]
     \<and> (faults w' Remove (filename self) = None \<longrightarrow> files w' (filename self) = None)"
proof -
  let ?f = "filename self"
  let ?v = "system_call (SysRemove ?f) w"
  show ?thesis
  proof (cases "files (at_next_call w) ?f")
    case None
    then have "deleteLockFile self w = (Inr (), self, ?v)"
      by (simp add: deleteLockFile_def os_remove_cases)
    moreover have "files ?v ?f = None" using None by simp
    ultimately show ?thesis by simp
  next
    case (Some st)
    show ?thesis
    proof (cases "faults (at_next_call w) Remove ?f")
      case None
      with Some have "deleteLockFile self w =
          (Inr (), self, ?v\<lparr>files := (files (at_next_call w))(?f := None)\<rparr>)"
        by (simp add: deleteLockFile_def os_remove_cases)
      then show ?thesis by simp
    next
      case (Some e)
      with \<open>files (at_next_call w) ?f = Some st\<close>
      have "deleteLockFile self w = (Inr (), self, ?v)
          \<or> deleteLockFile self w = (Inr (), self, Logger_log ''e'' (delete_failed_msg self) ?v)"
        by (simp add: deleteLockFile_def os_remove_cases)
      moreover have "faults ?v Remove ?f \<noteq> None"
        "faults (Logger_log ''e'' (delete_failed_msg self) ?v) Remove ?f \<noteq> None"
        "history (Logger_log ''e'' (delete_failed_msg self) ?v) = history w @ [SysRemove ?f]"
        using Some by (simp_all add: Logger_log_def)
      ultimately show ?thesis by auto
    qed
  qed
qed

subsection \<open>The wait loop while the marker is left alone\<close>




lemma marker_left_alone_updates [simp]:
  "marker_left_alone f (w\<lparr>history := h\<rparr>) = marker_left_alone f w"
  "marker_left_alone f (w\<lparr>log := l\<rparr>) = marker_left_alone f w"
  "marker_left_alone f (w\<lparr>clock := c\<rparr>) = marker_left_alone f w"
  "marker_left_alone f (w\<lparr>files := fs\<rparr>) = marker_left_alone f w"
  by (simp_all add: marker_left_alone_def)




lemma onward_marker:
  assumes "onward f w v" and "files w f = None \<or> files w f = Some st"
  shows "files v f = None \<or> files v f = Some st"
  using assms by (auto simp: onward_def)









section \<open>The claims\<close>

lemmas calls = at_next_call_def system_call_def time_time_def time_sleep_def os_stat_def
  os_path_exists_def os_path_getmtime_def open_w_def file_write_def os_remove_def os_getpid_def
  Logger_log_def

lemmas methods = LockFile_enter_def LockFile_exit_def with_LockFile_def createLockFile_def
  deleteLockFile_def waitLockFileDisappear_def wait_condition_def wait_body_def
  create_failed_msg_def delete_failed_msg_def LockFile_init_def

lemmas examples = lock0_def w_empty_def w_held_def w_released_def w_undeletable_def skip_body_def
  w_fresh_def w_stale_def w_now_def w_race_def w_denied_def lock_zero_def failing_body_def
  w_denied_raised_def

lemmas race = w_race_started_def w_race_polled_def w_race_checked_def w_race_gone_def

lemma str_4242: "str_nat 4242 = ''4242''"
  by (simp add: str_nat.simps digit_char_def)



text \<open>
  C9. Constructed with a path only, the guard has a timeout of 10 seconds and the wait
  message "Waiting for lock file to disappear..."; \<^verbatim>\<open>__enter__\<close>, \<^verbatim>\<open>__exit__\<close> and the
  whole \<^verbatim>\<open>with\<close> statement hand back the object with the fields they were given.
\<close>

theorem default_configuration:
  "timeout (LockFile_init fname None None) = 10
   \<and> wait_msg (LockFile_init fname None None) = ''Waiting for lock file to disappear...''
   \<and> filename (LockFile_init fname None None) = fname
   \<and> (LockFile_enter self w = Some (r1, self1, w1) \<longrightarrow> self1 = self)
   \<and> fst (snd (LockFile_exit self exc w)) = self
   \<and> (with_LockFile self body w = Some (r2, self2, w2) \<longrightarrow> self2 = self)"
  using LockFile_enter_self [of self w r1 self1 w1] with_LockFile_self [of self body w r2 self2 w2]
    LockFile_exit_returns [of self exc w]
  by (auto simp: LockFile_init_def)


theorem default_configuration_witness:
  "timeout (LockFile_init ''m.lock'' None None) = 10
   \<and> wait_msg (LockFile_init ''m.lock'' None None) = ''Waiting for lock file to disappear...''
   \<and> LockFile_enter lock0 w_empty = Some (Inr (), lock0, w_held)
   \<and> fst (snd (LockFile_exit lock0 None w_held)) = lock0
   \<and> with_LockFile lock0 skip_body w_empty = Some (Inr (), lock0, w_released)"
  using default_configuration [of "''m.lock''" lock0 w_empty "Inr ()" lock0 w_held None
      skip_body "Inr ()" lock0 w_released]
  by (simp add: methods calls examples wait_loop.simps str_nat.simps digit_char_def)



text \<open>
  C4. If in some round of the wait loop \<^verbatim>\<open>os.path.exists\<close> sees the marker and the read
  of its modification time that follows (the first, or the second after the first passed
  the timeout test) raises \<^verbatim>\<open>FileNotFoundError\<close>, the loop ends at once,
  \<^verbatim>\<open>_waitLockFileDisappear\<close> swallows the exception and returns normally, and
  \<^verbatim>\<open>__enter__\<close> goes on to \<^verbatim>\<open>_createLockFile\<close>, which returns normally.
\<close>

theorem race_tolerance:
  assumes t: "time_time w = (now0, w0)"
    and polls: "after_polls self n (now0, w0) = Some (now, wi)"
    and there: "os_path_exists (filename self) wi = (True, wa)"
    and gone: "os_path_getmtime (filename self) wa = (Inl FileNotFoundError, wb)
      \<or> (\<exists>m1 wm. os_path_getmtime (filename self) wa = (Inr m1, wm) \<and> now < m1 + timeout self
            \<and> os_path_getmtime (filename self) wm = (Inl FileNotFoundError, wb))"
  shows "wait_loop self now wi = Some (Inl FileNotFoundError, self, wb)
    \<and> waitLockFileDisappear self w = Some (Inr (), self, wb)
    \<and> LockFile_enter self w = Some (createLockFile self wb)
    \<and> fst (createLockFile self wb) = Inr ()"
proof -
  from there gone have c: "wait_condition self now wi = (Inl FileNotFoundError, wb)"
    by (auto simp: wait_condition_def)
  have l: "wait_loop self now wi = Some (Inl FileNotFoundError, self, wb)"
    by (subst wait_loop.simps) (simp add: c)
  with wait_loop_after_polls [OF polls]
  have "wait_loop self now0 w0 = Some (Inl FileNotFoundError, self, wb)" by simp
  with t have wt: "waitLockFileDisappear self w = Some (Inr (), self, wb)"
    by (simp add: waitLockFileDisappear_def)
  from l wt enter_after_wait [OF wt] createLockFile_returns [of self wb]
  show ?thesis by auto
qed

theorem race_tolerance_witness:
  "time_time w_race = (100, w_race_started)
   \<and> after_polls lock0 1 (100, w_race_started) = Some (1001 / 10, w_race_polled)
   \<and> os_path_exists (filename lock0) w_race_polled = (True, w_race_checked)
   \<and> os_path_getmtime (filename lock0) w_race_checked = (Inl FileNotFoundError, w_race_gone)
   \<and> wait_loop lock0 (1001 / 10) w_race_polled = Some (Inl FileNotFoundError, lock0, w_race_gone)
   \<and> waitLockFileDisappear lock0 w_race = Some (Inr (), lock0, w_race_gone)
   \<and> LockFile_enter lock0 w_race = Some (createLockFile lock0 w_race_gone)
   \<and> fst (createLockFile lock0 w_race_gone) = Inr ()"
proof -
  have t: "time_time w_race = (100, w_race_started)"
    by (simp add: calls examples race)
  have p: "after_polls lock0 1 (100, w_race_started) = Some (1001 / 10, w_race_polled)"
    by (simp add: methods calls examples race)
  have e: "os_path_exists (filename lock0) w_race_polled = (True, w_race_checked)"
    by (simp add: methods calls examples race)
  have g: "os_path_getmtime (filename lock0) w_race_checked =
      (Inl FileNotFoundError, w_race_gone)"
    by (simp add: methods calls examples race)
  from t p e g race_tolerance [OF t p e, of w_race_gone]
  show ?thesis by blast
qed

text \<open>
  C5. Once \<^verbatim>\<open>__enter__\<close> has returned, the \<^verbatim>\<open>with\<close> statement ends by running
  \<^verbatim>\<open>_deleteLockFile\<close> exactly once on the world the body left, whether the body returned
  or raised: one \<^verbatim>\<open>os.remove\<close> call is added to the history, the marker is gone unless that
  call was made to fail, and the outcome of the statement is the outcome of the body, so an
  exception of the body reaches the caller unchanged.
\<close>

theorem scope_exit_releases_once:
  assumes en: "LockFile_enter self w = Some (Inr (), self, w1)" and b: "body w1 = (rb, w2)"
  shows "\<exists>w3. with_LockFile self body w = Some (rb, self, w3)
     \<and> deleteLockFile self w2 = (Inr (), self, w3)
     \<and> history w3 = history w2 @ [SysRemove (filename self)]
     \<and> (faults w3 Remove (filename self) = None \<longrightarrow> files w3 (filename self) = None)"
proof -
  from deleteLockFile_outcome [of self w2]
  obtain w3 where d: "deleteLockFile self w2 = (Inr (), self, w3)
     \<and> history w3 = history w2 @ [SysRemove (filename self)]
     \<and> (faults w3 Remove (filename self) = None \<longrightarrow> files w3 (filename self) = None)" ..
  then have "snd (snd (deleteLockFile self w2)) = w3" by simp
  with with_LockFile_entered [of self w w1 body rb w2, OF en b]
  have "with_LockFile self body w = Some (rb, self, w3)" by simp
  with d have "with_LockFile self body w = Some (rb, self, w3)
     \<and> deleteLockFile self w2 = (Inr (), self, w3)
     \<and> history w3 = history w2 @ [SysRemove (filename self)]
     \<and> (faults w3 Remove (filename self) = None \<longrightarrow> files w3 (filename self) = None)"
    by (intro conjI) (elim conjE, assumption)+
  then show ?thesis ..
qed

theorem scope_exit_releases_once_witness:
  "LockFile_enter lock0 w_empty = Some (Inr (), lock0, w_held)
   \<and> failing_body w_held = (Inl (Exception ''boom''), w_held)
   \<and> (\<exists>w3. with_LockFile lock0 failing_body w_empty = Some (Inl (Exception ''boom''), lock0, w3)
        \<and> deleteLockFile lock0 w_held = (Inr (), lock0, w3)
        \<and> history w3 = history w_held @ [SysRemove (filename lock0)]
        \<and> files w3 (filename lock0) = None)"
proof -
  have en: "LockFile_enter lock0 w_empty = Some (Inr (), lock0, w_held)"
    by (simp add: methods calls examples wait_loop.simps str_4242)
  have b: "failing_body w_held = (Inl (Exception ''boom''), w_held)"
    by (simp add: failing_body_def)
  from scope_exit_releases_once [of lock0 w_empty w_held failing_body, OF en b]
  obtain w3 where w3: "with_LockFile lock0 failing_body w_empty =
        Some (Inl (Exception ''boom''), lock0, w3)"
      "deleteLockFile lock0 w_held = (Inr (), lock0, w3)"
      "history w3 = history w_held @ [SysRemove (filename lock0)]"
      "faults w3 Remove (filename lock0) = None \<longrightarrow> files w3 (filename lock0) = None"
    by auto
  from w3(2) have "faults w3 Remove (filename lock0) = None"
    by (auto simp: methods calls examples split: if_splits)
  with w3 have "with_LockFile lock0 failing_body w_empty =
        Some (Inl (Exception ''boom''), lock0, w3)
        \<and> deleteLockFile lock0 w_held = (Inr (), lock0, w3)
        \<and> history w3 = history w_held @ [SysRemove (filename lock0)]
        \<and> files w3 (filename lock0) = None"
    by simp
  then have "\<exists>w3. with_LockFile lock0 failing_body w_empty =
        Some (Inl (Exception ''boom''), lock0, w3)
        \<and> deleteLockFile lock0 w_held = (Inr (), lock0, w3)
        \<and> history w3 = history w_held @ [SysRemove (filename lock0)]
        \<and> files w3 (filename lock0) = None" ..
  with en b show ?thesis by simp
qed



text \<open>
  C8. Happy path. With no marker at the path, no failing operation on it and no other
  process acting: \<^verbatim>\<open>os.path.exists\<close> is false before \<^verbatim>\<open>__enter__\<close>; \<^verbatim>\<open>__enter__\<close> returns
  normally and leaves a marker holding the decimal text of the process identifier, so
  \<^verbatim>\<open>os.path.exists\<close> is true; \<^verbatim>\<open>__exit__\<close> returns normally and \<^verbatim>\<open>os.path.exists\<close> is
  false again; nothing is logged.
\<close>

theorem happy_path:
  assumes q: "quiet w" and absent: "files w (filename self) = None"
    and ok: "\<forall>k. faults w k (filename self) = None"
  shows "\<not> fst (os_path_exists (filename self) w)
    \<and> (\<exists>w1 w2. LockFile_enter self w = Some (Inr (), self, w1)
          \<and> files w1 (filename self) = Some \<lparr>content = str_nat (pid w), mtime = clock w\<rparr>
          \<and> fst (os_path_exists (filename self) w1)
          \<and> LockFile_exit self exc w1 = (Inr False, self, w2)
          \<and> files w2 (filename self) = None
          \<and> \<not> fst (os_path_exists (filename self) w2)
          \<and> log w2 = log w)"
proof -
  let ?f = "filename self"
  have before: "\<not> fst (os_path_exists ?f w)"
    using absent by (simp add: os_path_exists_quiet [OF q])
  from absent have k: "\<not> keeps_waiting self (clock w) w"
    by (simp add: keeps_waiting_def)
  from waitLockFileDisappear_quiet_exit [OF q k]
  obtain h where wt: "waitLockFileDisappear self w =
      Some (Inr (), self, w\<lparr>history := history w @ SysTime # h\<rparr>)"
    by blast
  let ?w0 = "w\<lparr>history := history w @ SysTime # h\<rparr>"
  have q0: "quiet ?w0" using q by simp
  let ?w1 = "?w0\<lparr>files := (files ?w0)(?f \<mapsto> \<lparr>content = str_nat (pid ?w0), mtime = clock ?w0\<rparr>),
        history := history ?w0 @ [SysOpen ?f, SysWrite ?f (str_nat (pid ?w0))]\<rparr>"
  have cr: "createLockFile self ?w0 = (Inr (), self, ?w1)"
    using ok by (intro createLockFile_quiet [OF q0]) simp_all
  with enter_after_wait [OF wt] have en: "LockFile_enter self w = Some (Inr (), self, ?w1)"
    by simp
  have q1: "quiet ?w1" using q by simp
  have held: "files ?w1 ?f = Some \<lparr>content = str_nat (pid w), mtime = clock w\<rparr>"
    by simp
  have during: "fst (os_path_exists ?f ?w1)"
    using ok os_path_exists_quiet [OF q1, of ?f] by simp
  let ?w2 = "?w1\<lparr>history := history ?w1 @ [SysRemove ?f], files := (files ?w1)(?f := None)\<rparr>"
  have "os_remove ?f ?w1 = (Inr (), ?w2)"
    using ok os_remove_quiet [OF q1, of ?f] by simp
  then have ex: "LockFile_exit self exc ?w1 = (Inr False, self, ?w2)"
    by (simp add: LockFile_exit_def deleteLockFile_def)
  have q2: "quiet ?w2" using q by simp
  have after: "files ?w2 ?f = None" "\<not> fst (os_path_exists ?f ?w2)" "log ?w2 = log w"
    using os_path_exists_quiet [OF q2, of ?f] by simp_all
  from before en held during ex after show ?thesis by blast
qed

theorem happy_path_witness:
  "quiet w_empty \<and> files w_empty (filename lock0) = None
   \<and> \<not> fst (os_path_exists (filename lock0) w_empty)
   \<and> (\<exists>w1 w2. LockFile_enter lock0 w_empty = Some (Inr (), lock0, w1)
          \<and> files w1 (filename lock0) =
               Some \<lparr>content = str_nat (pid w_empty), mtime = clock w_empty\<rparr>
          \<and> fst (os_path_exists (filename lock0) w1)
          \<and> LockFile_exit lock0 None w1 = (Inr False, lock0, w2)
          \<and> files w2 (filename lock0) = None
          \<and> \<not> fst (os_path_exists (filename lock0) w2)
          \<and> log w2 = log w_empty)
   \<and> str_nat (pid w_empty) = ''4242''"
proof -
  have q: "quiet w_empty" and a: "files w_empty (filename lock0) = None"
    and ok: "\<forall>k. faults w_empty k (filename lock0) = None"
    by (simp_all add: quiet_def examples)
  have p: "str_nat (pid w_empty) = ''4242''"
    by (simp add: examples str_4242)
  from q a p happy_path [OF q a ok, of None]
  show ?thesis by blast
qed










end
